theory Spec2Isabelle
  imports Main
begin

section \<open>Data model of the admission handler\<close>

text \<open>
  The embedding follows \<^verbatim>\<open>pkg/webhook/mutation.go\<close> (the primary handler),
  \<^verbatim>\<open>pkg/webhook/common.go\<close> and the skeleton handler of the second mutation file.
  Go strings are byte strings (\<^typ>\<open>string\<close>), a nil-able pointer or slice is an
  \<^typ>\<open>'a option\<close>, and a Go \<^verbatim>\<open>error\<close> is a value carrying its text and whether
  \<^verbatim>\<open>k8serrors.IsNotFound\<close> holds of it.
\<close>

datatype error = Error (Error_text: string) (IsNotFound: bool)

text \<open>A run-time panic of the Go program (nil pointer dereference).\<close>

datatype panic = NilPointerDereference

type_synonym mutationResponse = string

definition mutationErrorResponse :: mutationResponse where
  "mutationErrorResponse = ''error''"

definition mutationDenyResponse :: mutationResponse where
  "mutationDenyResponse = ''deny''"

definition mutationAllowResponse :: mutationResponse where
  "mutationAllowResponse = ''allow''"

definition mutationSkipResponse :: mutationResponse where
  "mutationSkipResponse = ''skip''"

definition mutationUnknownResponse :: mutationResponse where
  "mutationUnknownResponse = ''unknown''"

text \<open>The operation constants of \<^verbatim>\<open>admissionv1beta1\<close>.\<close>

type_synonym Operation = string

definition Create :: Operation where
  "Create = ''CREATE''"

definition Update :: Operation where
  "Update = ''UPDATE''"

definition Delete :: Operation where
  "Delete = ''DELETE''"

text \<open>\<^verbatim>\<open>metav1.GroupVersionKind\<close>, the kind of the object under admission.\<close>

record GroupVersionKind =
  Group :: string
  Version :: string
  Kind :: string

text \<open>\<^verbatim>\<open>admissionv1beta1.AdmissionRequest\<close>, restricted to the fields the handler reads.
  \<open>Object_Raw\<close> is \<^verbatim>\<open>Object.Raw\<close>, a byte slice that may be nil.\<close>

record AdmissionRequest =
  Operation :: Operation
  Username :: string
  RequestKind :: GroupVersionKind
  Namespace :: string
  Name :: string
  Object_Raw :: "string option"

text \<open>\<^verbatim>\<open>v1alpha1.GVK\<close> and \<^verbatim>\<open>v1alpha1.Trace\<close>; a \<^verbatim>\<open>v1alpha1.Config\<close> is read only
  through \<^verbatim>\<open>Spec.Validation.Traces\<close>.\<close>

record GVK =
  GVK_Group :: string
  GVK_Version :: string
  GVK_Kind :: string

record Trace =
  Trace_User :: string
  Trace_Kind :: GVK
  Trace_Dump :: string

record Config =
  Traces :: "Trace list"

text \<open>\<^verbatim>\<open>corev1.Namespace\<close> and \<^verbatim>\<open>target.AugmentedReview\<close>.\<close>

datatype corev1_Namespace = corev1_Namespace (ns_name: string) (ns_labels: "(string \<times> string) list")

record AugmentedReview =
  Review_AdmissionRequest :: AdmissionRequest
  Review_Namespace :: "corev1_Namespace option"

text \<open>\<^verbatim>\<open>rtypes.Result\<close> with the constraint it names, and \<^verbatim>\<open>rtypes.Responses\<close> as the
  handler reads it: the flattened result list and the trace dump.\<close>

record Constraint =
  Constraint_Name :: string
  Constraint_Kind :: string
  Constraint_Namespace :: string

record rtypes_Result =
  Msg :: string
  Constraint :: Constraint
  EnforcementAction :: string

record Responses =
  Results :: "rtypes_Result list"
  TraceDump :: string

text \<open>\<^verbatim>\<open>admission.Response\<close>: the allowed flag, the status (a pointer, so optional)
  with its code and reason text, and the patch list.\<close>

record Status =
  Code :: int
  Reason :: string

record Response =
  Allowed :: bool
  Result :: "Status option"
  Patches :: "string list"

section \<open>Collaborators\<close>

text \<open>
  The cached client answers two reads: the configuration object (the object as the
  read left it, together with the error, since \<^verbatim>\<open>getConfig\<close> returns both) and a
  namespace by name. The uncached reader answers the namespace read only. The engine
  answers a review with its responses and an optional error, and a dump request.
  The handler fields the code tests against nil (\<^verbatim>\<open>client\<close>, \<^verbatim>\<open>reporter\<close>,
  \<^verbatim>\<open>injectedConfig\<close>) are optional; the fields it uses without a test are present.
\<close>

record client_Client =
  Get_Config :: "Config \<times> error option"
  Get_Namespace :: "string \<Rightarrow> error + corev1_Namespace"

record opa_Client =
  Review :: "AugmentedReview \<Rightarrow> bool \<Rightarrow> Responses \<times> error option"
  Dump :: "error + string"

datatype process = Audit | Sync | Webhook | Star

record mutationHandler =
  opa :: opa_Client
  client :: "client_Client option"
  reporter :: "(mutationResponse \<Rightarrow> int \<Rightarrow> error option) option"
  reader :: "string \<Rightarrow> error + corev1_Namespace"
  injectedConfig :: "Config option"
  processExcluder :: "process \<Rightarrow> string \<Rightarrow> bool"
  gkNamespace :: string

text \<open>
  The package-level variables of \<^verbatim>\<open>common.go\<close> and the two clock readings of one
  request: \<^verbatim>\<open>time.Now()\<close> at entry and the reading \<^verbatim>\<open>time.Since\<close> takes in the
  deferred call.
\<close>

record globals =
  logDenies :: bool
  emitAdmissionEvents :: bool
  util_GetNamespace :: string
  deserializer_Decode :: "string \<Rightarrow> error + string"
  clock_start :: int
  clock_deferred :: int

text \<open>Every call the handler makes to a collaborator, in program order.\<close>

datatype ViolationRef =
  ViolationRef string string string string string string string

datatype effect =
    LogInfo string
  | LogError error string
  | LogDenied "(string \<times> string) list"
  | ClientGetConfig
  | ClientGetNamespace string
  | ReaderGetNamespace string
  | OpaReview AugmentedReview bool
  | OpaDump
  | Decode string
  | AnnotatedEventf ViolationRef "(string \<times> string) list" string string string
  | ReportMutationRequest mutationResponse int

section \<open>Tracing configuration\<close>

text \<open>
  \<^verbatim>\<open>strings.EqualFold\<close> at its one call site compares with \<^verbatim>\<open>"All"\<close>. The letters
  A and L fold only with a and l, so on this argument Unicode simple folding is
  ASCII case folding, byte by byte.
\<close>

definition foldASCII :: "char \<Rightarrow> char" where
  "foldASCII c =
     (let n = (of_char c :: nat) in if 65 \<le> n \<and> n \<le> 90 then char_of (n + 32) else c)"

definition EqualFold :: "string \<Rightarrow> string \<Rightarrow> bool" where
  "EqualFold s t = (map foldASCII s = map foldASCII t)"

definition getConfig :: "mutationHandler \<Rightarrow> (Config option \<times> error option) \<times> effect list" where
  "getConfig h =
     (case injectedConfig h of
        Some cfg \<Rightarrow> ((Some cfg, None), [])
      | None \<Rightarrow>
          (case client h of
             None \<Rightarrow>
               ((None, Some (Error ''no client available to retrieve validation config'' False)), [])
           | Some c \<Rightarrow> ((Some (fst (Get_Config c)), snd (Get_Config c)), [ClientGetConfig])))"

text \<open>The loop of \<^verbatim>\<open>tracingLevel\<close> over the trace specs, carrying
  \<^verbatim>\<open>traceEnabled\<close> and \<^verbatim>\<open>dump\<close>.\<close>

fun tracingLoop :: "Trace list \<Rightarrow> AdmissionRequest \<Rightarrow> bool \<times> bool \<Rightarrow> bool \<times> bool" where
  "tracingLoop [] req (traceEnabled, dump) = (traceEnabled, dump)"
| "tracingLoop (trace # rest) req (traceEnabled, dump) =
     (if Trace_User trace \<noteq> Username req then tracingLoop rest req (traceEnabled, dump)
      else
        let gvk = \<lparr>GVK_Group = Group (RequestKind req),
                   GVK_Version = Version (RequestKind req),
                   GVK_Kind = Kind (RequestKind req)\<rparr>
        in if gvk = Trace_Kind trace
           then tracingLoop rest req
                  (True, if EqualFold (Trace_Dump trace) ''All'' then True else dump)
           else tracingLoop rest req (traceEnabled, dump))"

text \<open>\<^verbatim>\<open>tracingLevel\<close> drops the error of \<^verbatim>\<open>getConfig\<close> and reads
  \<^verbatim>\<open>cfg.Spec.Validation.Traces\<close>; with a nil \<^verbatim>\<open>cfg\<close> that read panics.\<close>

definition tracingLevel ::
  "mutationHandler \<Rightarrow> AdmissionRequest \<Rightarrow> (panic + bool \<times> bool) \<times> effect list" where
  "tracingLevel h req =
     (case getConfig h of
        ((None, _), effs) \<Rightarrow> (Inl NilPointerDereference, effs)
      | ((Some cfg, _), effs) \<Rightarrow> (Inr (tracingLoop (Traces cfg) req (False, False)), effs))"

section \<open>Short-circuit filters and response construction\<close>

definition serviceAccountName :: string where
  "serviceAccountName = ''gatekeeper-admin''"

definition serviceaccount :: "globals \<Rightarrow> string" where
  "serviceaccount g =
     ''system:serviceaccount:'' @ util_GetNamespace g @ '':'' @ serviceAccountName"

definition isGkServiceAccount :: "globals \<Rightarrow> string \<Rightarrow> bool" where
  "isGkServiceAccount g user_Username = (user_Username = serviceaccount g)"

definition isGatekeeperResource :: "AdmissionRequest \<Rightarrow> bool" where
  "isGatekeeperResource req =
     (if Group (RequestKind req) = ''templates.gatekeeper.sh'' \<or>
         Group (RequestKind req) = ''constraints.gatekeeper.sh''
      then True else False)"

definition skipExcludedNamespace :: "mutationHandler \<Rightarrow> string \<Rightarrow> bool" where
  "skipExcludedNamespace h namespace = processExcluder h Webhook namespace"

text \<open>\<^verbatim>\<open>admission.ValidationResponse\<close> of controller-runtime: status 200 when allowed
  and 403 otherwise, the reason text stored when it is not empty.\<close>

definition StatusOK :: int where
  "StatusOK = 200"

definition StatusForbidden :: int where
  "StatusForbidden = 403"

definition StatusInternalServerError :: int where
  "StatusInternalServerError = 500"

definition ValidationResponse :: "bool \<Rightarrow> string \<Rightarrow> Response" where
  "ValidationResponse allowed reason =
     \<lparr>Allowed = allowed,
      Result = Some \<lparr>Code = (if allowed then StatusOK else StatusForbidden),
                     Reason = (if length reason > 0 then reason else [])\<rparr>,
      Patches = []\<rparr>"

text \<open>The three lines that follow each denying \<^verbatim>\<open>ValidationResponse\<close> in
  \<^verbatim>\<open>Handle\<close>: allocate the status when it is nil, then set its code.\<close>

definition setResultCode :: "Response \<Rightarrow> int \<Rightarrow> Response" where
  "setResultCode vResp c =
     (let st = (case Result vResp of None \<Rightarrow> \<lparr>Code = 0, Reason = []\<rparr> | Some st0 \<Rightarrow> st0)
      in vResp\<lparr>Result := Some (st\<lparr>Code := c\<rparr>)\<rparr>)"

text \<open>\<^verbatim>\<open>strings.Join\<close>.\<close>

fun Join :: "string list \<Rightarrow> string \<Rightarrow> string" where
  "Join [] sep = []"
| "Join [a] sep = a"
| "Join (a # b # rest) sep = a @ sep @ Join (b # rest) sep"

section \<open>Namespace augmentation and engine dispatch\<close>

text \<open>Lines 290 to 304 of \<^verbatim>\<open>reviewRequest\<close>: build the review and, for a non-empty
  namespace, read the namespace object, from the cache first and from the API server
  when the cache says not found. A nil \<^verbatim>\<open>client\<close> panics at the call.\<close>

definition reviewRequest_review ::
  "mutationHandler \<Rightarrow> AdmissionRequest \<Rightarrow> (panic + error + AugmentedReview) \<times> effect list" where
  "reviewRequest_review h req =
     (let review = \<lparr>Review_AdmissionRequest = req, Review_Namespace = None\<rparr> in
      if Namespace req \<noteq> [] then
        (case client h of
           None \<Rightarrow> (Inl NilPointerDereference, [])
         | Some c \<Rightarrow>
             (case Get_Namespace c (Namespace req) of
                Inr ns \<Rightarrow>
                  (Inr (Inr (review\<lparr>Review_Namespace := Some ns\<rparr>)),
                   [ClientGetNamespace (Namespace req)])
              | Inl err \<Rightarrow>
                  if \<not> IsNotFound err
                  then (Inr (Inl err), [ClientGetNamespace (Namespace req)])
                  else
                    (case reader h (Namespace req) of
                       Inl err2 \<Rightarrow>
                         (Inr (Inl err2),
                          [ClientGetNamespace (Namespace req), ReaderGetNamespace (Namespace req)])
                     | Inr ns \<Rightarrow>
                         (Inr (Inr (review\<lparr>Review_Namespace := Some ns\<rparr>)),
                          [ClientGetNamespace (Namespace req),
                           ReaderGetNamespace (Namespace req)]))))
      else (Inr (Inr review), []))"

text \<open>Lines 306 to 319: the engine call, the trace log and the optional dump. The
  error of the dump is bound to a new variable and only logged.\<close>

definition reviewRequest_dispatch ::
  "mutationHandler \<Rightarrow> AugmentedReview \<Rightarrow> bool \<Rightarrow> bool \<Rightarrow> (error + Responses) \<times> effect list" where
  "reviewRequest_dispatch h review trace dump =
     (let resp = fst (Review (opa h) review trace);
          err = snd (Review (opa h) review trace);
          effs_trace = (if trace then [LogInfo (TraceDump resp)] else []);
          effs_dump =
            (if dump
             then OpaDump #
                  (case Dump (opa h) of
                     Inl derr \<Rightarrow> [LogError derr ''dump error'']
                   | Inr d \<Rightarrow> [LogInfo d])
             else [])
      in ((case err of Some e \<Rightarrow> Inl e | None \<Rightarrow> Inr resp),
          OpaReview review trace # effs_trace @ effs_dump))"

text \<open>Lines 287 to 289: the local copy of a request for a core Namespace loses its
  namespace field.\<close>

definition reviewRequest_coerce :: "AdmissionRequest \<Rightarrow> AdmissionRequest" where
  "reviewRequest_coerce req =
     (if Kind (RequestKind req) = ''Namespace'' \<and> Group (RequestKind req) = []
      then req\<lparr>Namespace := []\<rparr> else req)"

definition reviewRequest ::
  "mutationHandler \<Rightarrow> AdmissionRequest \<Rightarrow> (panic + error + Responses) \<times> effect list" where
  "reviewRequest h req0 =
     (case tracingLevel h req0 of
        (Inl p, effs0) \<Rightarrow> (Inl p, effs0)
      | (Inr (trace, dump), effs0) \<Rightarrow>
          (let req = reviewRequest_coerce req0
           in case reviewRequest_review h req of
                (Inl p, effs1) \<Rightarrow> (Inl p, effs0 @ effs1)
              | (Inr (Inl err), effs1) \<Rightarrow> (Inr (Inl err), effs0 @ effs1)
              | (Inr (Inr review), effs1) \<Rightarrow>
                  (Inr (fst (reviewRequest_dispatch h review trace dump)),
                   effs0 @ effs1 @ snd (reviewRequest_dispatch h review trace dump))))"

section \<open>Violation aggregation\<close>

text \<open>Lines 201 to 212 of \<^verbatim>\<open>getDenyMessages\<close>: the display name of the resource.
  The raw payload is decoded only under the guards of the source, and a decode error
  leaves the name empty.\<close>

definition getDenyMessages_resourceName ::
  "globals \<Rightarrow> rtypes_Result list \<Rightarrow> AdmissionRequest \<Rightarrow> string \<times> effect list" where
  "getDenyMessages_resourceName g res req =
     (if length res > 0 \<and> (logDenies g \<or> emitAdmissionEvents g) then
        (if length (Name req) = 0 \<and> Object_Raw req \<noteq> None then
           (case Object_Raw req of
              None \<Rightarrow> (Name req, [])
            | Some raw \<Rightarrow>
                (case deserializer_Decode g raw of
                   Inr obj_name \<Rightarrow> (obj_name, [Decode raw])
                 | Inl err \<Rightarrow> (Name req, [Decode raw])))
         else (Name req, []))
      else ([], []))"

definition violationFields ::
  "AdmissionRequest \<Rightarrow> string \<Rightarrow> rtypes_Result \<Rightarrow> (string \<times> string) list" where
  "violationFields req resourceName r =
     [(''process'', ''admission''),
      (''event_type'', ''violation''),
      (''constraint_name'', Constraint_Name (Constraint r)),
      (''constraint_kind'', Constraint_Kind (Constraint r)),
      (''constraint_action'', EnforcementAction r),
      (''resource_kind'', Kind (RequestKind req)),
      (''resource_namespace'', Namespace req),
      (''resource_name'', resourceName),
      (''request_username'', Username req)]"

definition violationEvent ::
  "mutationHandler \<Rightarrow> AdmissionRequest \<Rightarrow> string \<Rightarrow> rtypes_Result \<Rightarrow> effect" where
  "violationEvent h req resourceName r =
     (let eventMsg = (if EnforcementAction r = ''dryrun'' then ''Dryrun violation''
                      else ''Admission webhook '' @ [CHR 0x22] @ ''validation.gatekeeper.sh'' @
                             [CHR 0x22] @ '' denied request'');
          reason = (if EnforcementAction r = ''dryrun'' then ''DryrunViolation''
                    else ''FailedAdmission'');
          ref = ViolationRef (gkNamespace h) (Kind (RequestKind req)) resourceName
                  (Namespace req) (Constraint_Kind (Constraint r))
                  (Constraint_Name (Constraint r)) (Constraint_Namespace (Constraint r))
      in AnnotatedEventf ref (violationFields req resourceName r) ''Warning'' reason
           (eventMsg @ '', Resource Namespace: '' @ Namespace req @ '', Constraint: '' @
            Constraint_Name (Constraint r) @ '', Message: '' @ Msg r))"

text \<open>\<^verbatim>\<open>fmt.Sprintf("[denied by %s] %s", r.Constraint.GetName(), r.Msg)\<close>.\<close>

definition denyMessage :: "rtypes_Result \<Rightarrow> string" where
  "denyMessage r = ''[denied by '' @ Constraint_Name (Constraint r) @ ''] '' @ Msg r"

text \<open>The loop of lines 213 to 255, carrying \<^verbatim>\<open>msgs\<close> and the calls made so far.\<close>

fun getDenyMessages_loop ::
  "mutationHandler \<Rightarrow> globals \<Rightarrow> AdmissionRequest \<Rightarrow> string \<Rightarrow> rtypes_Result list \<Rightarrow>
     string list \<times> effect list \<Rightarrow> string list \<times> effect list" where
  "getDenyMessages_loop h g req resourceName [] (msgs, effs) = (msgs, effs)"
| "getDenyMessages_loop h g req resourceName (r # rest) (msgs, effs) =
     (let effs1 =
            (if EnforcementAction r = ''deny'' \<or> EnforcementAction r = ''dryrun''
             then effs
                  @ (if logDenies g then [LogDenied (violationFields req resourceName r)] else [])
                  @ (if emitAdmissionEvents g then [violationEvent h req resourceName r] else [])
             else effs);
          msgs1 = (if EnforcementAction r = ''deny'' then msgs @ [denyMessage r] else msgs)
      in getDenyMessages_loop h g req resourceName rest (msgs1, effs1))"

definition getDenyMessages ::
  "mutationHandler \<Rightarrow> globals \<Rightarrow> rtypes_Result list \<Rightarrow> AdmissionRequest \<Rightarrow>
     string list \<times> effect list" where
  "getDenyMessages h g res req =
     getDenyMessages_loop h g req (fst (getDenyMessages_resourceName g res req)) res
       ([], snd (getDenyMessages_resourceName g res req))"

section \<open>The primary handler\<close>

text \<open>The deferred function of \<^verbatim>\<open>Handle\<close>, run when the handler returns or panics
  after line 163, with the value \<^verbatim>\<open>requestResponse\<close> has then.\<close>

definition deferredReport :: "mutationHandler \<Rightarrow> globals \<Rightarrow> mutationResponse \<Rightarrow> effect list" where
  "deferredReport h g requestResponse =
     (case reporter h of
        None \<Rightarrow> []
      | Some report \<Rightarrow>
          ReportMutationRequest requestResponse (clock_deferred g - clock_start g) #
          (case report requestResponse (clock_deferred g - clock_start g) of
             None \<Rightarrow> []
           | Some err \<Rightarrow> [LogError err ''failed to report request'']))"

text \<open>Lines 165 to 196: the part of \<^verbatim>\<open>Handle\<close> under the deferred call. It yields the
  response or panic, the final \<^verbatim>\<open>requestResponse\<close> and the calls made.\<close>

definition Handle_evaluate ::
  "mutationHandler \<Rightarrow> globals \<Rightarrow> AdmissionRequest \<Rightarrow>
     (panic + Response) \<times> mutationResponse \<times> effect list" where
  "Handle_evaluate h g req =
     (if skipExcludedNamespace h (Namespace req)
      then (Inr (ValidationResponse True ''Namespace is set to be ignored by Gatekeeper config''),
            mutationSkipResponse, [])
      else
        (case reviewRequest h req of
           (Inl p, effs) \<Rightarrow> (Inl p, mutationUnknownResponse, effs)
         | (Inr (Inl err), effs) \<Rightarrow>
             (Inr (setResultCode (ValidationResponse False (Error_text err))
                     StatusInternalServerError),
              mutationErrorResponse, effs @ [LogError err ''error executing query''])
         | (Inr (Inr resp), effs) \<Rightarrow>
             (let res = Results resp;
                  msgs = fst (getDenyMessages h g res req);
                  effs2 = snd (getDenyMessages h g res req)
              in if length msgs > 0
                 then (Inr (setResultCode (ValidationResponse False (Join msgs [CHR 0x0A]))
                              StatusForbidden),
                       mutationDenyResponse, effs @ effs2)
                 else (Inr (ValidationResponse True []), mutationAllowResponse, effs @ effs2))))"

definition Handle ::
  "mutationHandler \<Rightarrow> globals \<Rightarrow> AdmissionRequest \<Rightarrow> (panic + Response) \<times> effect list" where
  "Handle h g req =
     (let entry = [LogInfo ''!!!!!!!!!! MUTATION           ''] in
      if isGkServiceAccount g (Username req)
      then (Inr (ValidationResponse True ''Gatekeeper does not self-manage''), entry)
      else if Operation req \<noteq> Create \<and> Operation req \<noteq> Update
      then (Inr (ValidationResponse True ''Mutating only on create''), entry)
      else if isGatekeeperResource req
      then (Inr (ValidationResponse True ''Not mutating gatekeeper resources''), entry)
      else
        (case Handle_evaluate h g req of
           (r, requestResponse, effs) \<Rightarrow> (r, entry @ effs @ deferredReport h g requestResponse)))"

text \<open>What an observer of the metrics sink sees: the recording calls, in order.\<close>

fun reports :: "effect list \<Rightarrow> (mutationResponse \<times> int) list" where
  "reports [] = []"
| "reports (ReportMutationRequest tag d # effs) = (tag, d) # reports effs"
| "reports (_ # effs) = reports effs"

section \<open>The skeleton handler\<close>

text \<open>
  The second mutation file embeds a \<^verbatim>\<open>webhookHandler\<close> whose declaration and whose
  methods \<^verbatim>\<open>isGatekeeperResource\<close> and \<^verbatim>\<open>skipExcludedNamespace\<close> are not part of the
  sources at hand; they are fields of the record here. \<^verbatim>\<open>mutateRequest\<close> is the
  placeholder of the source, which always returns a response and a nil error.
  \<^verbatim>\<open>Handle\<close> of that file is \<open>skeleton_Handle\<close>; it never assigns
  \<^verbatim>\<open>requestResponse\<close> after the namespace filter.
\<close>

record webhookHandler =
  wh_reporter :: "(mutationResponse \<Rightarrow> int \<Rightarrow> error option) option"
  wh_isGatekeeperResource :: "AdmissionRequest \<Rightarrow> bool"
  wh_skipExcludedNamespace :: "string \<Rightarrow> bool"

definition mutateRequest :: "webhookHandler \<Rightarrow> AdmissionRequest \<Rightarrow> error + Response" where
  "mutateRequest h req =
     Inr \<lparr>Allowed = True, Result = Some \<lparr>Code = StatusOK, Reason = []\<rparr>, Patches = []\<rparr>"



section \<open>Observations on the call log\<close>

text \<open>The namespace reads, the reviews handed to the engine and the payloads decoded,
  each in program order, and the entries that only report a violation.\<close>

fun namespaceReads :: "effect list \<Rightarrow> effect list" where
  "namespaceReads [] = []"
| "namespaceReads (ClientGetNamespace name # effs) = ClientGetNamespace name # namespaceReads effs"
| "namespaceReads (ReaderGetNamespace name # effs) = ReaderGetNamespace name # namespaceReads effs"
| "namespaceReads (_ # effs) = namespaceReads effs"

fun reviews :: "effect list \<Rightarrow> AugmentedReview list" where
  "reviews [] = []"
| "reviews (OpaReview review trace # effs) = review # reviews effs"
| "reviews (_ # effs) = reviews effs"

fun decodes :: "effect list \<Rightarrow> string list" where
  "decodes [] = []"
| "decodes (Decode raw # effs) = raw # decodes effs"
| "decodes (_ # effs) = decodes effs"

fun isViolationReport :: "effect \<Rightarrow> bool" where
  "isViolationReport (LogDenied kvs) = True"
| "isViolationReport (AnnotatedEventf vref annotations eventtype reason message) = True"
| "isViolationReport _ = False"

section \<open>Predicates in the words of the specification\<close>

text \<open>A trace spec matches a request when user and group, version, kind agree; a dump
  field asks for a dump when it is "All" in any letter case.\<close>

definition spec_traceMatches :: "Trace \<Rightarrow> AdmissionRequest \<Rightarrow> bool" where
  "spec_traceMatches t req =
     (Trace_User t = Username req \<and>
      GVK_Group (Trace_Kind t) = Group (RequestKind req) \<and>
      GVK_Version (Trace_Kind t) = Version (RequestKind req) \<and>
      GVK_Kind (Trace_Kind t) = Kind (RequestKind req))"

definition spec_dumpIsAll :: "string \<Rightarrow> bool" where
  "spec_dumpIsAll s =
     (s \<in> set [''All'', ''ALL'', ''AlL'', ''ALl'', ''all'', ''aLL'', ''alL'', ''aLl''])"

section \<open>Example inputs\<close>

text \<open>A handler with a cached client whose reads report not-found, an engine that
  returns no result, and a create request for a Deployment.\<close>

definition ex_opa :: opa_Client where
  "ex_opa = \<lparr>Review = (\<lambda>review trace. (\<lparr>Results = [], TraceDump = ''trace''\<rparr>, None)),
            Dump = Inr ''dump''\<rparr>"

definition ex_client :: client_Client where
  "ex_client = \<lparr>Get_Config = (\<lparr>Traces = []\<rparr>, Some (Error ''config not found'' True)),
               Get_Namespace = (\<lambda>name. Inl (Error ''namespace not found'' True))\<rparr>"

definition ex_handler :: mutationHandler where
  "ex_handler =
     \<lparr>opa = ex_opa, client = Some ex_client, reporter = Some (\<lambda>tag d. None),
      reader = (\<lambda>name. Inr (corev1_Namespace name [])),
      injectedConfig = None,
      processExcluder = (\<lambda>p namespace. p = Webhook \<and> namespace = ''kube-system''),
      gkNamespace = ''gatekeeper-system''\<rparr>"

definition ex_globals :: globals where
  "ex_globals =
     \<lparr>logDenies = False, emitAdmissionEvents = False,
      util_GetNamespace = ''gatekeeper-system'',
      deserializer_Decode = (\<lambda>raw. Inl (Error ''decode failed'' False)),
      clock_start = 100, clock_deferred = 107\<rparr>"

definition ex_request :: AdmissionRequest where
  "ex_request =
     \<lparr>Operation = Create, Username = ''alice'',
      RequestKind = \<lparr>Group = ''apps'', Version = ''v1'', Kind = ''Deployment''\<rparr>,
      Namespace = [], Name = ''web'', Object_Raw = None\<rparr>"

definition ex_trace :: Trace where
  "ex_trace =
     \<lparr>Trace_User = ''alice'',
      Trace_Kind = \<lparr>GVK_Group = ''apps'', GVK_Version = ''v1'', GVK_Kind = ''Deployment''\<rparr>,
      Trace_Dump = ''ALL''\<rparr>"

definition ex_deny :: rtypes_Result where
  "ex_deny =
     \<lparr>Msg = ''privileged containers forbidden'',
      Constraint = \<lparr>Constraint_Name = ''no-privileged'', Constraint_Kind = ''K8sPSP'',
                     Constraint_Namespace = []\<rparr>,
      EnforcementAction = ''deny''\<rparr>"

definition ex_dryrun :: rtypes_Result where
  "ex_dryrun =
     \<lparr>Msg = ''label owner missing'',
      Constraint = \<lparr>Constraint_Name = ''need-owner'', Constraint_Kind = ''K8sLabels'',
                     Constraint_Namespace = []\<rparr>,
      EnforcementAction = ''dryrun''\<rparr>"

definition ex_failing_opa :: opa_Client where
  "ex_failing_opa =
     \<lparr>Review = (\<lambda>review trace.
        (\<lparr>Results = [], TraceDump = []\<rparr>, Some (Error ''engine timeout'' False))),
      Dump = Inr ''dump''\<rparr>"

definition ex_denying_opa :: opa_Client where
  "ex_denying_opa =
     \<lparr>Review = (\<lambda>review trace.
        (\<lparr>Results = [ex_dryrun, ex_deny, ex_deny\<lparr>Msg := ''host network forbidden''\<rparr>],
          TraceDump = []\<rparr>, None)),
      Dump = Inr ''dump''\<rparr>"

definition ex_namespace_request :: AdmissionRequest where
  "ex_namespace_request =
     \<lparr>Operation = Update, Username = ''alice'',
      RequestKind = \<lparr>Group = [], Version = ''v1'', Kind = ''Namespace''\<rparr>,
      Namespace = ''prod'', Name = ''prod'', Object_Raw = None\<rparr>"


section \<open>Tracing\<close>

lemma of_char_foldASCII:
  "(of_char (foldASCII c) :: nat) =
     (if 65 \<le> (of_char c :: nat) \<and> (of_char c :: nat) \<le> 90 then of_char c + 32 else of_char c)"
  by (simp add: foldASCII_def Let_def)

lemma foldASCII_eq_iff:
  "foldASCII c = d \<longleftrightarrow>
     (if 65 \<le> (of_char c :: nat) \<and> (of_char c :: nat) \<le> 90 then of_char c + 32 else of_char c)
       = (of_char d :: nat)"
proof -
  have "foldASCII c = d \<longleftrightarrow> (of_char (foldASCII c) :: nat) = of_char d"
    by (simp only: of_char_eq_iff)
  then show ?thesis by (simp only: of_char_foldASCII)
qed

lemma char_eq_iff_nat: "c = d \<longleftrightarrow> (of_char c :: nat) = of_char d"
  by (simp only: of_char_eq_iff)

lemma foldASCII_a: "foldASCII c = CHR ''a'' \<longleftrightarrow> c = CHR ''a'' \<or> c = CHR ''A''"
  unfolding foldASCII_eq_iff char_eq_iff_nat [of c] by (simp split: if_splits) arith

lemma foldASCII_l: "foldASCII c = CHR ''l'' \<longleftrightarrow> c = CHR ''l'' \<or> c = CHR ''L''"
  unfolding foldASCII_eq_iff char_eq_iff_nat [of c] by (simp split: if_splits) arith

lemma fold_A: "foldASCII CHR ''A'' = CHR ''a''"
  by (simp add: foldASCII_a)

lemma fold_l: "foldASCII CHR ''l'' = CHR ''l''"
  by (simp add: foldASCII_l)

lemma EqualFold_All:
  "EqualFold s ''All'' \<longleftrightarrow>
     (\<exists>c1 c2 c3. s = [c1, c2, c3] \<and> (c1 = CHR ''a'' \<or> c1 = CHR ''A'') \<and>
        (c2 = CHR ''l'' \<or> c2 = CHR ''L'') \<and> (c3 = CHR ''l'' \<or> c3 = CHR ''L''))"
proof -
  have r: "map foldASCII ''All'' = ''all''"
    by (simp only: list.map fold_A fold_l)
  have "map foldASCII s = ''all'' \<longleftrightarrow>
     (\<exists>c1 c2 c3. s = [c1, c2, c3] \<and> foldASCII c1 = CHR ''a'' \<and>
        foldASCII c2 = CHR ''l'' \<and> foldASCII c3 = CHR ''l'')"
    by (cases s; cases "tl s"; cases "tl (tl s)"; cases "tl (tl (tl s))") auto
  then show ?thesis
    unfolding EqualFold_def r by (simp only: foldASCII_a foldASCII_l)
qed


lemma tracingLoop_acc:
  "tracingLoop ts req (e, d) =
     (e \<or> (\<exists>t \<in> set ts. spec_traceMatches t req),
      d \<or> (\<exists>t \<in> set ts. spec_traceMatches t req \<and> EqualFold (Trace_Dump t) ''All''))"
proof (induction ts arbitrary: e d)
  case Nil
  show ?case by simp
next
  case (Cons t ts)
  have m: "spec_traceMatches t req \<longleftrightarrow>
      Trace_User t = Username req \<and>
      \<lparr>GVK_Group = Group (RequestKind req), GVK_Version = Version (RequestKind req),
        GVK_Kind = Kind (RequestKind req)\<rparr> = Trace_Kind t"
    by (cases "Trace_Kind t") (auto simp: spec_traceMatches_def)
  show ?case
    by (auto simp: Cons.IH m Let_def)
qed

lemma EqualFold_All_spec: "EqualFold s ''All'' \<longleftrightarrow> spec_dumpIsAll s"
  unfolding EqualFold_All spec_dumpIsAll_def by auto

lemma tracingLevel_Some:
  "fst (fst (getConfig h)) = Some cfg \<Longrightarrow>
   fst (tracingLevel h req) = Inr (tracingLoop (Traces cfg) req (False, False))"
  by (cases "getConfig h") (auto simp: tracingLevel_def split: prod.splits option.splits)

text \<open>
  Claim C5. For every request and every trace-spec list, \<^verbatim>\<open>tracingLevel\<close> walks the
  list in order; a spec matches exactly when its user equals the requester's username
  and its group, version and kind equal the request's; the first component (enabled)
  is true exactly when some spec matches, and the second (dump) exactly when some
  matching spec has a dump field equal to "All" up to letter case.
\<close>

theorem tracingLevel_iterates_specs:
  assumes "fst (fst (getConfig h)) = Some cfg"
  shows "fst (tracingLevel h req) =
           Inr ((\<exists>t \<in> set (Traces cfg). spec_traceMatches t req),
                (\<exists>t \<in> set (Traces cfg). spec_traceMatches t req \<and> spec_dumpIsAll (Trace_Dump t)))"
  using tracingLevel_Some [OF assms] by (simp add: tracingLoop_acc EqualFold_All_spec)

theorem tracingLevel_iterates_specs_witness:
  "fst (fst (getConfig (ex_handler\<lparr>injectedConfig := Some \<lparr>Traces = [ex_trace]\<rparr>\<rparr>))) =
     Some \<lparr>Traces = [ex_trace]\<rparr> \<and>
   fst (tracingLevel (ex_handler\<lparr>injectedConfig := Some \<lparr>Traces = [ex_trace]\<rparr>\<rparr>) ex_request) =
     Inr (True, True)"
proof -
  have h: "fst (fst (getConfig (ex_handler\<lparr>injectedConfig := Some \<lparr>Traces = [ex_trace]\<rparr>\<rparr>))) =
     Some \<lparr>Traces = [ex_trace]\<rparr>"
    by (simp add: getConfig_def)
  show ?thesis
    using h tracingLevel_iterates_specs [OF h, of ex_request]
    by (simp add: spec_traceMatches_def spec_dumpIsAll_def ex_trace_def ex_request_def)
qed

text \<open>
  Claim C10. Whatever the configuration and the request, \<^verbatim>\<open>tracingLevel\<close> never
  returns dump true with enabled false.
\<close>

theorem tracingLevel_dump_implies_enabled:
  assumes "fst (tracingLevel h req) = Inr (enabled, dump)" and "dump"
  shows "enabled"
proof (cases "fst (fst (getConfig h))")
  case None
  then have "fst (tracingLevel h req) = Inl NilPointerDereference"
    by (cases "getConfig h") (auto simp: tracingLevel_def split: prod.splits)
  with assms(1) show ?thesis by simp
next
  case (Some cfg)
  from tracingLevel_Some [OF Some, of req] assms show ?thesis
    by (auto simp: tracingLoop_acc)
qed

theorem tracingLevel_dump_implies_enabled_witness:
  "fst (tracingLevel (ex_handler\<lparr>injectedConfig := Some \<lparr>Traces = [ex_trace]\<rparr>\<rparr>) ex_request) =
     Inr (True, True) \<and> True"
proof -
  have h: "fst (tracingLevel (ex_handler\<lparr>injectedConfig := Some \<lparr>Traces = [ex_trace]\<rparr>\<rparr>) ex_request) =
     Inr (True, True)"
    by (simp add: tracingLevel_def getConfig_def ex_trace_def ex_request_def
          EqualFold_All_spec spec_dumpIsAll_def)
  show ?thesis
    using h tracingLevel_dump_implies_enabled [OF h] by simp
qed

section \<open>The call log under the projections\<close>

lemma reports_append: "reports (xs @ ys) = reports xs @ reports ys"
  by (induction xs rule: reports.induct) simp_all

lemma namespaceReads_append: "namespaceReads (xs @ ys) = namespaceReads xs @ namespaceReads ys"
  by (induction xs rule: namespaceReads.induct) simp_all

lemma reviews_append: "reviews (xs @ ys) = reviews xs @ reviews ys"
  by (induction xs rule: reviews.induct) simp_all

lemma decodes_append: "decodes (xs @ ys) = decodes xs @ decodes ys"
  by (induction xs rule: decodes.induct) simp_all

lemma violation_projections:
  "\<forall>e \<in> set vs. isViolationReport e \<Longrightarrow>
     reports vs = [] \<and> namespaceReads vs = [] \<and> reviews vs = [] \<and> decodes vs = []"
proof (induction vs)
  case Nil
  show ?case by simp
next
  case (Cons e vs)
  then show ?case by (cases e) simp_all
qed

section \<open>Violation aggregation\<close>

lemma getDenyMessages_loop_msgs:
  "fst (getDenyMessages_loop h g req resourceName res (msgs, effs)) =
     msgs @ map denyMessage (filter (\<lambda>r. EnforcementAction r = ''deny'') res)"
  by (induction res arbitrary: msgs effs) (simp_all add: Let_def)

lemma isViolationReport_violationEvent: "isViolationReport (violationEvent h req resourceName r)"
  by (simp add: violationEvent_def Let_def)

lemma getDenyMessages_loop_effects:
  "\<exists>vs. snd (getDenyMessages_loop h g req resourceName res (msgs, effs)) = effs @ vs \<and>
        (\<forall>e \<in> set vs. isViolationReport e)"
proof (induction res arbitrary: msgs effs)
  case Nil
  show ?case by simp
next
  case (Cons r res)
  define effs1 where "effs1 =
            (if EnforcementAction r = ''deny'' \<or> EnforcementAction r = ''dryrun''
             then (if logDenies g then [LogDenied (violationFields req resourceName r)] else [])
                  @ (if emitAdmissionEvents g then [violationEvent h req resourceName r] else [])
             else [])"
  define msgs1 where "msgs1 = (if EnforcementAction r = ''deny'' then msgs @ [denyMessage r] else msgs)"
  have step: "getDenyMessages_loop h g req resourceName (r # res) (msgs, effs) =
      getDenyMessages_loop h g req resourceName res (msgs1, effs @ effs1)"
    by (simp add: Let_def effs1_def msgs1_def)
  have v1: "\<forall>e \<in> set effs1. isViolationReport e"
    by (auto simp: effs1_def isViolationReport_violationEvent)
  from Cons.IH [of msgs1 "effs @ effs1"] obtain vs where
    vs: "snd (getDenyMessages_loop h g req resourceName res (msgs1, effs @ effs1)) = (effs @ effs1) @ vs"
      "\<forall>e \<in> set vs. isViolationReport e"
    by blast
  have "snd (getDenyMessages_loop h g req resourceName (r # res) (msgs, effs)) = effs @ (effs1 @ vs)"
    using step vs(1) by simp
  moreover have "\<forall>e \<in> set (effs1 @ vs). isViolationReport e"
    using v1 vs(2) by auto
  ultimately show ?case by blast
qed

lemma getDenyMessages_msgs:
  "fst (getDenyMessages h g res req) =
     map denyMessage (filter (\<lambda>r. EnforcementAction r = ''deny'') res)"
  by (simp add: getDenyMessages_def getDenyMessages_loop_msgs)

lemma getDenyMessages_effects:
  "\<exists>vs. snd (getDenyMessages h g res req) = snd (getDenyMessages_resourceName g res req) @ vs \<and>
        (\<forall>e \<in> set vs. isViolationReport e)"
  unfolding getDenyMessages_def by (rule getDenyMessages_loop_effects)

lemma resourceName_effects:
  "snd (getDenyMessages_resourceName g res req) =
     (if res \<noteq> [] \<and> (logDenies g \<or> emitAdmissionEvents g) \<and> Name req = []
      then (case Object_Raw req of None \<Rightarrow> [] | Some raw \<Rightarrow> [Decode raw]) else [])"
  by (auto simp: getDenyMessages_resourceName_def split: option.splits sum.splits)

lemma resourceName_decode_failure:
  "Name req = [] \<Longrightarrow> Object_Raw req = Some raw \<Longrightarrow> deserializer_Decode g raw = Inl err \<Longrightarrow>
     fst (getDenyMessages_resourceName g res req) = []"
  by (simp add: getDenyMessages_resourceName_def)

lemma getDenyMessages_decodes:
  "decodes (snd (getDenyMessages h g res req)) =
     decodes (snd (getDenyMessages_resourceName g res req))"
proof -
  obtain vs where vs: "snd (getDenyMessages h g res req) =
        snd (getDenyMessages_resourceName g res req) @ vs" "\<forall>e \<in> set vs. isViolationReport e"
    using getDenyMessages_effects by blast
  show ?thesis
    using violation_projections [OF vs(2)] by (simp add: vs(1) decodes_append)
qed

text \<open>
  Claim C7. \<^verbatim>\<open>getDenyMessages\<close> decodes the raw payload only when the result list
  is non-empty, deny logging or event emission is on, the request carries no name and
  its raw payload is not nil (and then exactly once); a decode failure leaves the
  resource name empty; and the deny messages do not depend on the decoding at all.
\<close>

theorem getDenyMessages_name_resolution:
  "decodes (snd (getDenyMessages h g res req)) =
     (if res \<noteq> [] \<and> (logDenies g \<or> emitAdmissionEvents g) \<and> Name req = []
      then (case Object_Raw req of None \<Rightarrow> [] | Some raw \<Rightarrow> [raw]) else [])
   \<and> (\<forall>raw err. Name req = [] \<and> Object_Raw req = Some raw \<and>
          deserializer_Decode g raw = Inl err \<longrightarrow>
          fst (getDenyMessages_resourceName g res req) = [])
   \<and> fst (getDenyMessages h g res req) =
        map denyMessage (filter (\<lambda>r. EnforcementAction r = ''deny'') res)"
proof (intro conjI allI impI)
  show "decodes (snd (getDenyMessages h g res req)) =
     (if res \<noteq> [] \<and> (logDenies g \<or> emitAdmissionEvents g) \<and> Name req = []
      then (case Object_Raw req of None \<Rightarrow> [] | Some raw \<Rightarrow> [raw]) else [])"
    by (simp add: getDenyMessages_decodes resourceName_effects split: option.splits)
next
  fix raw err
  assume "Name req = [] \<and> Object_Raw req = Some raw \<and> deserializer_Decode g raw = Inl err"
  then show "fst (getDenyMessages_resourceName g res req) = []"
    by (simp add: resourceName_decode_failure)
next
  show "fst (getDenyMessages h g res req) =
        map denyMessage (filter (\<lambda>r. EnforcementAction r = ''deny'') res)"
    by (rule getDenyMessages_msgs)
qed

text \<open>Deny logging on, no name, a payload that does not decode.\<close>

theorem getDenyMessages_name_resolution_witness:
  "decodes (snd (getDenyMessages ex_handler (ex_globals\<lparr>logDenies := True\<rparr>) [ex_deny]
              (ex_request\<lparr>Name := [], Object_Raw := Some ''{}''\<rparr>))) = [''{}'']
   \<and> fst (getDenyMessages_resourceName (ex_globals\<lparr>logDenies := True\<rparr>) [ex_deny]
              (ex_request\<lparr>Name := [], Object_Raw := Some ''{}''\<rparr>)) = []
   \<and> fst (getDenyMessages ex_handler (ex_globals\<lparr>logDenies := True\<rparr>) [ex_deny]
              (ex_request\<lparr>Name := [], Object_Raw := Some ''{}''\<rparr>)) =
        [''[denied by no-privileged] privileged containers forbidden'']"
  using getDenyMessages_name_resolution [of ex_handler "ex_globals\<lparr>logDenies := True\<rparr>"
      "[ex_deny]" "ex_request\<lparr>Name := [], Object_Raw := Some ''{}''\<rparr>"]
  by (simp add: ex_globals_def ex_request_def ex_deny_def denyMessage_def)

section \<open>The handler past its filters\<close>

lemma Handle_past_filters:
  assumes "\<not> isGkServiceAccount g (Username req)"
    and "Operation req = Create \<or> Operation req = Update"
    and "\<not> isGatekeeperResource req"
  shows "Handle h g req =
     (fst (Handle_evaluate h g req),
      LogInfo ''!!!!!!!!!! MUTATION           '' # snd (snd (Handle_evaluate h g req)) @
        deferredReport h g (fst (snd (Handle_evaluate h g req))))"
  using assms by (auto simp: Handle_def Let_def split: prod.splits)

lemma reports_deferredReport:
  "reports (deferredReport h g tag) =
     (case reporter h of None \<Rightarrow> [] | Some report \<Rightarrow> [(tag, clock_deferred g - clock_start g)])"
  by (simp add: deferredReport_def split: option.splits)

lemma reports_getConfig: "reports (snd (getConfig h)) = []"
  by (simp add: getConfig_def split: option.splits)

lemma reports_tracingLevel: "reports (snd (tracingLevel h req)) = []"
  using reports_getConfig [of h]
  by (cases "getConfig h") (auto simp: tracingLevel_def split: option.splits prod.splits)

lemma reports_review: "reports (snd (reviewRequest_review h req)) = []"
  by (simp add: reviewRequest_review_def Let_def split: option.splits sum.splits)

lemma reports_dispatch: "reports (snd (reviewRequest_dispatch h review trace dump)) = []"
  by (simp add: reviewRequest_dispatch_def Let_def reports_append split: sum.splits)

lemma reviewRequest_fst:
  "fst (reviewRequest h req) =
     (case fst (tracingLevel h req) of
        Inl p \<Rightarrow> Inl p
      | Inr td \<Rightarrow>
          (case fst (reviewRequest_review h (reviewRequest_coerce req)) of
             Inl p \<Rightarrow> Inl p
           | Inr (Inl err) \<Rightarrow> Inr (Inl err)
           | Inr (Inr review) \<Rightarrow> Inr (fst (reviewRequest_dispatch h review (fst td) (snd td)))))"
proof (cases "tracingLevel h req")
  case (Pair r effs0)
  show ?thesis
  proof (cases r)
    case (Inl p)
    with Pair show ?thesis by (simp add: reviewRequest_def)
  next
    case (Inr td)
    obtain trace dump where td: "td = (trace, dump)" by (cases td)
    obtain rv effs1 where rv: "reviewRequest_review h (reviewRequest_coerce req) = (rv, effs1)"
      by (cases "reviewRequest_review h (reviewRequest_coerce req)")
    show ?thesis
      using Pair Inr td rv by (simp add: reviewRequest_def split: sum.splits)
  qed
qed

lemma reviewRequest_snd:
  "snd (reviewRequest h req) =
     snd (tracingLevel h req) @
     (case fst (tracingLevel h req) of
        Inl p \<Rightarrow> []
      | Inr td \<Rightarrow>
          snd (reviewRequest_review h (reviewRequest_coerce req)) @
          (case fst (reviewRequest_review h (reviewRequest_coerce req)) of
             Inr (Inr review) \<Rightarrow> snd (reviewRequest_dispatch h review (fst td) (snd td))
           | _ \<Rightarrow> []))"
proof (cases "tracingLevel h req")
  case (Pair r effs0)
  show ?thesis
  proof (cases r)
    case (Inl p)
    with Pair show ?thesis by (simp add: reviewRequest_def)
  next
    case (Inr td)
    obtain trace dump where td: "td = (trace, dump)" by (cases td)
    obtain rv effs1 where rv: "reviewRequest_review h (reviewRequest_coerce req) = (rv, effs1)"
      by (cases "reviewRequest_review h (reviewRequest_coerce req)")
    show ?thesis
      using Pair Inr td rv by (simp add: reviewRequest_def split: sum.splits)
  qed
qed

lemma reports_reviewRequest: "reports (snd (reviewRequest h req)) = []"
  by (simp add: reviewRequest_snd reports_append reports_tracingLevel reports_review
        reports_dispatch split: sum.splits)

lemma reports_getDenyMessages: "reports (snd (getDenyMessages h g res req)) = []"
proof -
  obtain vs where vs: "snd (getDenyMessages h g res req) =
        snd (getDenyMessages_resourceName g res req) @ vs" "\<forall>e \<in> set vs. isViolationReport e"
    using getDenyMessages_effects by blast
  show ?thesis
    using violation_projections [OF vs(2)]
    by (simp add: vs(1) reports_append resourceName_effects split: option.splits)
qed

lemma reports_Handle_evaluate: "reports (snd (snd (Handle_evaluate h g req))) = []"
proof (cases "skipExcludedNamespace h (Namespace req)")
  case True
  then show ?thesis by (simp add: Handle_evaluate_def)
next
  case False
  obtain r effs where rr: "reviewRequest h req = (r, effs)" by (cases "reviewRequest h req")
  have e: "reports effs = []" using reports_reviewRequest [of h req] rr by simp
  show ?thesis
    using False rr e reports_getDenyMessages
    by (auto simp: Handle_evaluate_def Let_def reports_append split: sum.splits)
qed

lemma reports_Handle_past_filters:
  assumes "\<not> isGkServiceAccount g (Username req)"
    and "Operation req = Create \<or> Operation req = Update"
    and "\<not> isGatekeeperResource req"
  shows "reports (snd (Handle h g req)) =
     (case reporter h of
        None \<Rightarrow> []
      | Some report \<Rightarrow>
          [(fst (snd (Handle_evaluate h g req)), clock_deferred g - clock_start g)])"
  by (simp add: Handle_past_filters [OF assms] reports_append reports_Handle_evaluate
        reports_deferredReport)

lemma Handle_evaluate_error:
  assumes "\<not> skipExcludedNamespace h (Namespace req)"
    and "fst (reviewRequest h req) = Inr (Inl err)"
  shows "fst (Handle_evaluate h g req) =
           Inr (setResultCode (ValidationResponse False (Error_text err)) StatusInternalServerError)"
    and "fst (snd (Handle_evaluate h g req)) = mutationErrorResponse"
  using assms by (cases "reviewRequest h req"; simp add: Handle_evaluate_def)+

lemma Handle_evaluate_results:
  assumes "\<not> skipExcludedNamespace h (Namespace req)"
    and "fst (reviewRequest h req) = Inr (Inr resp)"
  shows "fst (Handle_evaluate h g req) =
           (if fst (getDenyMessages h g (Results resp) req) \<noteq> []
            then Inr (setResultCode
                   (ValidationResponse False (Join (fst (getDenyMessages h g (Results resp) req)) [CHR 0x0A]))
                   StatusForbidden)
            else Inr (ValidationResponse True []))"
    and "fst (snd (Handle_evaluate h g req)) =
           (if fst (getDenyMessages h g (Results resp) req) \<noteq> []
            then mutationDenyResponse else mutationAllowResponse)"
  using assms by (cases "reviewRequest h req"; simp add: Handle_evaluate_def Let_def)+

lemma setResultCode_ValidationResponse:
  "setResultCode (ValidationResponse allowed reason) c =
     \<lparr>Allowed = allowed, Result = Some \<lparr>Code = c, Reason = reason\<rparr>, Patches = []\<rparr>"
  by (simp add: setResultCode_def ValidationResponse_def)

lemma ex_filters:
  "\<not> isGkServiceAccount ex_globals (Username ex_request)"
  "Operation ex_request = Create \<or> Operation ex_request = Update"
  "\<not> isGatekeeperResource ex_request"
  by (simp_all add: isGkServiceAccount_def serviceaccount_def ex_globals_def ex_request_def
        isGatekeeperResource_def)

text \<open>
  Claim C1. For a request that reaches evaluation and whose evaluation returns without
  error, \<^verbatim>\<open>Handle\<close> denies exactly when some result has enforcement action
  \<^verbatim>\<open>deny\<close>: the response then has allowed false, status 403 and, as its text, the
  messages \<^verbatim>\<open>[denied by name] msg\<close> of the deny results in the engine's order,
  joined by a newline. Results with any other action (dryrun, warn, ...) add no
  message, and without a deny result the response is the plain allow.
\<close>

theorem Handle_deny_iff_deny_result:
  assumes "\<not> isGkServiceAccount g (Username req)"
    and "Operation req = Create \<or> Operation req = Update"
    and "\<not> isGatekeeperResource req"
    and "\<not> skipExcludedNamespace h (Namespace req)"
    and "fst (reviewRequest h req) = Inr (Inr resp)"
  shows "fst (Handle h g req) =
           (if \<exists>r \<in> set (Results resp). EnforcementAction r = ''deny''
            then Inr \<lparr>Allowed = False,
                      Result = Some \<lparr>Code = 403,
                        Reason = Join (map (\<lambda>r. ''[denied by '' @ Constraint_Name (Constraint r) @
                                                 ''] '' @ Msg r)
                                        (filter (\<lambda>r. EnforcementAction r = ''deny'') (Results resp)))
                                   [CHR 0x0A]\<rparr>,
                      Patches = []\<rparr>
            else Inr \<lparr>Allowed = True, Result = Some \<lparr>Code = 200, Reason = []\<rparr>, Patches = []\<rparr>)"
proof -
  have msgs: "fst (getDenyMessages h g (Results resp) req) =
      map (\<lambda>r. ''[denied by '' @ Constraint_Name (Constraint r) @ ''] '' @ Msg r)
        (filter (\<lambda>r. EnforcementAction r = ''deny'') (Results resp))"
    by (simp add: getDenyMessages_msgs denyMessage_def)
  have ne: "fst (getDenyMessages h g (Results resp) req) \<noteq> [] \<longleftrightarrow>
      (\<exists>r \<in> set (Results resp). EnforcementAction r = ''deny'')"
    by (simp add: msgs filter_empty_conv)
  have "fst (Handle h g req) = fst (Handle_evaluate h g req)"
    by (simp add: Handle_past_filters [OF assms(1-3)])
  also have "\<dots> = (if \<exists>r \<in> set (Results resp). EnforcementAction r = ''deny''
            then Inr (setResultCode
                   (ValidationResponse False (Join (fst (getDenyMessages h g (Results resp) req)) [CHR 0x0A]))
                   StatusForbidden)
            else Inr (ValidationResponse True []))"
    by (simp only: Handle_evaluate_results(1) [OF assms(4,5)] ne)
  finally show ?thesis
    by (simp only: setResultCode_ValidationResponse msgs)
       (simp add: StatusForbidden_def ValidationResponse_def StatusOK_def)
qed

text \<open>A dryrun result followed by two deny results: the response joins the two deny messages.\<close>

theorem Handle_deny_iff_deny_result_witness:
  "fst (reviewRequest (ex_handler\<lparr>opa := ex_denying_opa\<rparr>) ex_request) =
     Inr (Inr \<lparr>Results = [ex_dryrun, ex_deny, ex_deny\<lparr>Msg := ''host network forbidden''\<rparr>],
               TraceDump = []\<rparr>)
   \<and> fst (Handle (ex_handler\<lparr>opa := ex_denying_opa\<rparr>) ex_globals ex_request) =
       Inr \<lparr>Allowed = False,
            Result = Some \<lparr>Code = 403,
              Reason = ''[denied by no-privileged] privileged containers forbidden'' @ [CHR 0x0A] @
                       ''[denied by no-privileged] host network forbidden''\<rparr>,
            Patches = []\<rparr>"
proof -
  let ?h = "ex_handler\<lparr>opa := ex_denying_opa\<rparr>"
  have f4: "\<not> skipExcludedNamespace ?h (Namespace ex_request)"
    by (simp add: skipExcludedNamespace_def ex_handler_def ex_request_def)
  have rr: "fst (reviewRequest ?h ex_request) =
     Inr (Inr \<lparr>Results = [ex_dryrun, ex_deny, ex_deny\<lparr>Msg := ''host network forbidden''\<rparr>],
               TraceDump = []\<rparr>)"
    by (simp add: reviewRequest_fst tracingLevel_def getConfig_def ex_handler_def ex_client_def
          reviewRequest_coerce_def reviewRequest_review_def ex_request_def
          reviewRequest_dispatch_def ex_denying_opa_def)
  show ?thesis
    using rr Handle_deny_iff_deny_result [OF ex_filters(1-3) f4 rr]
    by (simp add: ex_deny_def ex_dryrun_def)
qed

text \<open>Conversely, a response with allowed false and status 403 only comes from a deny
  result of a successful evaluation.\<close>

lemma Handle_denies_only_on_deny_result:
  assumes "fst (Handle h g req) = Inr r" and "Allowed r = False"
    and "Result r = Some st" and "Code st = 403"
  shows "\<exists>resp. fst (reviewRequest h req) = Inr (Inr resp) \<and>
           (\<exists>x \<in> set (Results resp). EnforcementAction x = ''deny'')"
proof (cases "isGkServiceAccount g (Username req) \<or>
            (Operation req \<noteq> Create \<and> Operation req \<noteq> Update) \<or>
            isGatekeeperResource req")
  case True
  then have "\<exists>m. fst (Handle h g req) = Inr (ValidationResponse True m)"
    by (auto simp: Handle_def Let_def)
  with assms(1,2) show ?thesis by (auto simp: ValidationResponse_def)
next
  case False
  then have f: "\<not> isGkServiceAccount g (Username req)"
    "Operation req = Create \<or> Operation req = Update" "\<not> isGatekeeperResource req"
    by auto
  have ev: "fst (Handle_evaluate h g req) = Inr r"
    using assms(1) by (simp add: Handle_past_filters [OF f])
  show ?thesis
  proof (cases "skipExcludedNamespace h (Namespace req)")
    case True
    with ev assms(2) show ?thesis
      by (auto simp: Handle_evaluate_def ValidationResponse_def)
  next
    case nskip: False
    show ?thesis
    proof (cases "fst (reviewRequest h req)")
      case (Inl p)
      then show ?thesis
        using ev nskip by (cases "reviewRequest h req") (simp add: Handle_evaluate_def)
    next
      case (Inr x)
      show ?thesis
      proof (cases x)
        case (Inl err)
        with Inr have "fst (reviewRequest h req) = Inr (Inl err)" by simp
        from Handle_evaluate_error(1) [OF nskip this, of g] ev assms(3,4) show ?thesis
          by (auto simp: setResultCode_ValidationResponse StatusInternalServerError_def)
      next
        case (Inr resp)
        with \<open>fst (reviewRequest h req) = Inr x\<close>
        have rr: "fst (reviewRequest h req) = Inr (Inr resp)" by simp
        have "fst (getDenyMessages h g (Results resp) req) \<noteq> []"
          using Handle_evaluate_results(1) [OF nskip rr, of g] ev assms(2)
          by (auto simp: ValidationResponse_def split: if_splits)
        then have "\<exists>x \<in> set (Results resp). EnforcementAction x = ''deny''"
          by (simp add: getDenyMessages_msgs filter_empty_conv)
        with rr show ?thesis by blast
      qed
    qed
  qed
qed

lemma reviewRequest_error_sources:
  assumes "fst (reviewRequest h req) = Inr (Inl err)"
  shows "fst (reviewRequest_review h (reviewRequest_coerce req)) = Inr (Inl err) \<or>
         (\<exists>review trace. snd (Review (opa h) review trace) = Some err)"
proof (cases "fst (tracingLevel h req)")
  case (Inl p)
  with assms show ?thesis by (simp add: reviewRequest_fst)
next
  case (Inr td)
  show ?thesis
  proof (cases "fst (reviewRequest_review h (reviewRequest_coerce req))")
    case (Inl p)
    with assms Inr show ?thesis by (simp add: reviewRequest_fst)
  next
    case r: (Inr x)
    show ?thesis
    proof (cases x)
      case (Inl e)
      with assms Inr r show ?thesis by (simp add: reviewRequest_fst)
    next
      case (Inr review)
      with assms \<open>fst (tracingLevel h req) = Inr td\<close> r
      have "fst (reviewRequest_dispatch h review (fst td) (snd td)) = Inl err"
        by (simp add: reviewRequest_fst)
      then have "snd (Review (opa h) review (fst td)) = Some err"
        by (simp add: reviewRequest_dispatch_def Let_def split: option.splits)
      then show ?thesis by blast
    qed
  qed
qed

text \<open>
  Claim C2. For a request that reaches evaluation, when \<^verbatim>\<open>reviewRequest\<close> returns an
  error (from the namespace read or from the engine), \<^verbatim>\<open>Handle\<close> answers with
  allowed false, status 500 and the error's text, and every recording made carries
  the tag \<^verbatim>\<open>error\<close> (exactly one recording when a reporter is set).
\<close>

theorem Handle_fails_closed_on_evaluation_error:
  assumes "\<not> isGkServiceAccount g (Username req)"
    and "Operation req = Create \<or> Operation req = Update"
    and "\<not> isGatekeeperResource req"
    and "\<not> skipExcludedNamespace h (Namespace req)"
    and "fst (reviewRequest h req) = Inr (Inl err)"
  shows "fst (Handle h g req) =
           Inr \<lparr>Allowed = False, Result = Some \<lparr>Code = 500, Reason = Error_text err\<rparr>,
                Patches = []\<rparr>
         \<and> reports (snd (Handle h g req)) =
             (case reporter h of
                None \<Rightarrow> []
              | Some report \<Rightarrow> [(''error'', clock_deferred g - clock_start g)])"
proof
  have "fst (Handle h g req) = fst (Handle_evaluate h g req)"
    by (simp add: Handle_past_filters [OF assms(1-3)])
  then show "fst (Handle h g req) =
           Inr \<lparr>Allowed = False, Result = Some \<lparr>Code = 500, Reason = Error_text err\<rparr>,
                Patches = []\<rparr>"
    by (simp only: Handle_evaluate_error(1) [OF assms(4,5)] setResultCode_ValidationResponse
          StatusInternalServerError_def)
next
  show "reports (snd (Handle h g req)) =
             (case reporter h of
                None \<Rightarrow> []
              | Some report \<Rightarrow> [(''error'', clock_deferred g - clock_start g)])"
    by (simp only: reports_Handle_past_filters [OF assms(1-3)]
          Handle_evaluate_error(2) [OF assms(4,5)] mutationErrorResponse_def)
qed

text \<open>An engine that times out.\<close>

theorem Handle_fails_closed_on_evaluation_error_witness:
  "fst (reviewRequest (ex_handler\<lparr>opa := ex_failing_opa\<rparr>) ex_request) =
     Inr (Inl (Error ''engine timeout'' False))
   \<and> fst (Handle (ex_handler\<lparr>opa := ex_failing_opa\<rparr>) ex_globals ex_request) =
       Inr \<lparr>Allowed = False, Result = Some \<lparr>Code = 500, Reason = ''engine timeout''\<rparr>,
            Patches = []\<rparr>
   \<and> reports (snd (Handle (ex_handler\<lparr>opa := ex_failing_opa\<rparr>) ex_globals ex_request)) =
       [(''error'', 7)]"
proof -
  let ?h = "ex_handler\<lparr>opa := ex_failing_opa\<rparr>"
  have f4: "\<not> skipExcludedNamespace ?h (Namespace ex_request)"
    by (simp add: skipExcludedNamespace_def ex_handler_def ex_request_def)
  have rr: "fst (reviewRequest ?h ex_request) = Inr (Inl (Error ''engine timeout'' False))"
    by (simp add: reviewRequest_fst tracingLevel_def getConfig_def ex_handler_def ex_client_def
          reviewRequest_coerce_def reviewRequest_review_def ex_request_def
          reviewRequest_dispatch_def ex_failing_opa_def)
  show ?thesis
    using rr Handle_fails_closed_on_evaluation_error [OF ex_filters(1-3) f4 rr]
    by (simp add: ex_handler_def ex_globals_def)
qed

text \<open>
  Claim C3, as stated, fails: the deferred recording is registered after the
  self-manage, operation and own-resource filters. A request from Gatekeeper's own
  service account is allowed and, with a reporter set, nothing is recorded.
\<close>

theorem Handle_self_manage_not_reported:
  "reporter ex_handler \<noteq> None \<and>
   fst (Handle ex_handler ex_globals
          (ex_request\<lparr>Username := ''system:serviceaccount:gatekeeper-system:gatekeeper-admin''\<rparr>)) =
     Inr \<lparr>Allowed = True,
          Result = Some \<lparr>Code = 200, Reason = ''Gatekeeper does not self-manage''\<rparr>,
          Patches = []\<rparr> \<and>
   reports (snd (Handle ex_handler ex_globals
          (ex_request\<lparr>Username := ''system:serviceaccount:gatekeeper-system:gatekeeper-admin''\<rparr>))) = []"
  by (simp add: Handle_def isGkServiceAccount_def serviceaccount_def serviceAccountName_def
        ex_globals_def ex_handler_def ValidationResponse_def StatusOK_def)

text \<open>
  Claim C3, amended. With a reporter set and a clock that does not run backwards,
  \<^verbatim>\<open>Handle\<close> records nothing on the three early allow paths (self-manage, operation
  other than create or update, Gatekeeper's own resources), and on every other path
  (excluded namespace, error, deny, allow after evaluation, and also a panic under
  the deferred call) it records exactly once, with a non-negative duration.
\<close>

theorem Handle_reports_once_past_filters:
  assumes "reporter h = Some report"
    and "clock_start g \<le> clock_deferred g"
  shows "if isGkServiceAccount g (Username req) \<or>
            (Operation req \<noteq> Create \<and> Operation req \<noteq> Update) \<or>
            isGatekeeperResource req
         then reports (snd (Handle h g req)) = []
         else (\<exists>tag d. reports (snd (Handle h g req)) = [(tag, d)] \<and> 0 \<le> d)"
proof (cases "isGkServiceAccount g (Username req) \<or>
            (Operation req \<noteq> Create \<and> Operation req \<noteq> Update) \<or>
            isGatekeeperResource req")
  case True
  then have "snd (Handle h g req) = [LogInfo ''!!!!!!!!!! MUTATION           '']"
    by (auto simp: Handle_def Let_def)
  with True show ?thesis by simp
next
  case False
  then have f: "\<not> isGkServiceAccount g (Username req)"
    "Operation req = Create \<or> Operation req = Update" "\<not> isGatekeeperResource req"
    by auto
  have "reports (snd (Handle h g req)) =
      [(fst (snd (Handle_evaluate h g req)), clock_deferred g - clock_start g)]"
    by (simp add: reports_Handle_past_filters [OF f] assms(1))
  moreover have "0 \<le> clock_deferred g - clock_start g"
    using assms(2) by simp
  ultimately show ?thesis using False by auto
qed

text \<open>The example request passes the filters and is recorded once.\<close>

theorem Handle_reports_once_past_filters_witness:
  "reporter ex_handler = Some (\<lambda>tag d. None) \<and> clock_start ex_globals \<le> clock_deferred ex_globals \<and>
   (\<exists>tag d. reports (snd (Handle ex_handler ex_globals ex_request)) = [(tag, d)] \<and> 0 \<le> d)"
proof -
  have r: "reporter ex_handler = Some (\<lambda>tag d. None)"
    by (simp add: ex_handler_def)
  have c: "clock_start ex_globals \<le> clock_deferred ex_globals"
    by (simp add: ex_globals_def)
  show ?thesis
    using r c Handle_reports_once_past_filters [OF r c, of ex_request] ex_filters(1-3)
    by simp
qed

section \<open>Namespace reads and reviews\<close>

lemma projections_deferredReport:
  "namespaceReads (deferredReport h g tag) = []" "reviews (deferredReport h g tag) = []"
  by (simp_all add: deferredReport_def split: option.splits)

lemma projections_getDenyMessages:
  "namespaceReads (snd (getDenyMessages h g res req)) = []"
  "reviews (snd (getDenyMessages h g res req)) = []"
proof -
  obtain vs where vs: "snd (getDenyMessages h g res req) =
        snd (getDenyMessages_resourceName g res req) @ vs" "\<forall>e \<in> set vs. isViolationReport e"
    using getDenyMessages_effects by blast
  show "namespaceReads (snd (getDenyMessages h g res req)) = []"
    using violation_projections [OF vs(2)]
    by (simp add: vs(1) namespaceReads_append resourceName_effects split: option.splits)
  show "reviews (snd (getDenyMessages h g res req)) = []"
    using violation_projections [OF vs(2)]
    by (simp add: vs(1) reviews_append resourceName_effects split: option.splits)
qed

lemma projections_Handle_evaluate:
  "namespaceReads (snd (snd (Handle_evaluate h g req))) =
     (if skipExcludedNamespace h (Namespace req) then []
      else namespaceReads (snd (reviewRequest h req)))"
  "reviews (snd (snd (Handle_evaluate h g req))) =
     (if skipExcludedNamespace h (Namespace req) then []
      else reviews (snd (reviewRequest h req)))"
proof -
  obtain r effs where rr: "reviewRequest h req = (r, effs)" by (cases "reviewRequest h req")
  show "namespaceReads (snd (snd (Handle_evaluate h g req))) =
     (if skipExcludedNamespace h (Namespace req) then []
      else namespaceReads (snd (reviewRequest h req)))"
    using rr
    by (auto simp: Handle_evaluate_def Let_def namespaceReads_append projections_getDenyMessages
          split: sum.splits)
  show "reviews (snd (snd (Handle_evaluate h g req))) =
     (if skipExcludedNamespace h (Namespace req) then []
      else reviews (snd (reviewRequest h req)))"
    using rr
    by (auto simp: Handle_evaluate_def Let_def reviews_append projections_getDenyMessages
          split: sum.splits)
qed

lemma projections_Handle:
  "namespaceReads (snd (Handle h g req)) = [] \<or>
   namespaceReads (snd (Handle h g req)) = namespaceReads (snd (reviewRequest h req))"
  "reviews (snd (Handle h g req)) = [] \<or>
   reviews (snd (Handle h g req)) = reviews (snd (reviewRequest h req))"
proof -
  show "namespaceReads (snd (Handle h g req)) = [] \<or>
   namespaceReads (snd (Handle h g req)) = namespaceReads (snd (reviewRequest h req))"
  proof (cases "isGkServiceAccount g (Username req) \<or>
            (Operation req \<noteq> Create \<and> Operation req \<noteq> Update) \<or>
            isGatekeeperResource req")
    case True
    then have "snd (Handle h g req) = [LogInfo ''!!!!!!!!!! MUTATION           '']"
      by (auto simp: Handle_def Let_def)
    then show ?thesis by simp
  next
    case False
    then have f: "\<not> isGkServiceAccount g (Username req)"
      "Operation req = Create \<or> Operation req = Update" "\<not> isGatekeeperResource req"
      by auto
    show ?thesis
      by (simp add: Handle_past_filters [OF f] namespaceReads_append projections_deferredReport
            projections_Handle_evaluate)
  qed
  show "reviews (snd (Handle h g req)) = [] \<or>
   reviews (snd (Handle h g req)) = reviews (snd (reviewRequest h req))"
  proof (cases "isGkServiceAccount g (Username req) \<or>
            (Operation req \<noteq> Create \<and> Operation req \<noteq> Update) \<or>
            isGatekeeperResource req")
    case True
    then have "snd (Handle h g req) = [LogInfo ''!!!!!!!!!! MUTATION           '']"
      by (auto simp: Handle_def Let_def)
    then show ?thesis by simp
  next
    case False
    then have f: "\<not> isGkServiceAccount g (Username req)"
      "Operation req = Create \<or> Operation req = Update" "\<not> isGatekeeperResource req"
      by auto
    show ?thesis
      by (simp add: Handle_past_filters [OF f] reviews_append projections_deferredReport
            projections_Handle_evaluate)
  qed
qed

lemma projections_tracingLevel:
  "namespaceReads (snd (tracingLevel h req)) = []" "reviews (snd (tracingLevel h req)) = []"
  by (cases "getConfig h";
      auto simp: tracingLevel_def getConfig_def split: option.splits prod.splits)+

lemma projections_dispatch:
  "namespaceReads (snd (reviewRequest_dispatch h review trace dump)) = []"
  "reviews (snd (reviewRequest_dispatch h review trace dump)) = [review]"
  by (simp_all add: reviewRequest_dispatch_def Let_def namespaceReads_append reviews_append
        split: sum.splits)

lemma reviewRequest_review_empty_namespace:
  "Namespace req = [] \<Longrightarrow>
     reviewRequest_review h req =
       (Inr (Inr \<lparr>Review_AdmissionRequest = req, Review_Namespace = None\<rparr>), [])"
  by (simp add: reviewRequest_review_def)

lemma reviewRequest_Namespace_kind:
  assumes "Kind (RequestKind req) = ''Namespace''" and "Group (RequestKind req) = []"
  shows "namespaceReads (snd (reviewRequest h req)) = []"
    and "\<forall>rv \<in> set (reviews (snd (reviewRequest h req))).
           rv = \<lparr>Review_AdmissionRequest = req\<lparr>Namespace := []\<rparr>, Review_Namespace = None\<rparr>"
proof -
  have c: "reviewRequest_coerce req = req\<lparr>Namespace := []\<rparr>"
    using assms by (simp add: reviewRequest_coerce_def)
  have rv: "reviewRequest_review h (reviewRequest_coerce req) =
       (Inr (Inr \<lparr>Review_AdmissionRequest = req\<lparr>Namespace := []\<rparr>, Review_Namespace = None\<rparr>), [])"
    unfolding c by (rule reviewRequest_review_empty_namespace) simp
  show "namespaceReads (snd (reviewRequest h req)) = []"
    by (simp add: reviewRequest_snd rv namespaceReads_append projections_tracingLevel
          projections_dispatch split: sum.splits)
  show "\<forall>rv \<in> set (reviews (snd (reviewRequest h req))).
           rv = \<lparr>Review_AdmissionRequest = req\<lparr>Namespace := []\<rparr>, Review_Namespace = None\<rparr>"
    by (simp add: reviewRequest_snd rv reviews_append projections_tracingLevel
          projections_dispatch split: sum.splits)
qed

text \<open>
  Claim C9. For a request whose kind is \<^verbatim>\<open>Namespace\<close> in the core group, whatever its
  namespace field, \<^verbatim>\<open>Handle\<close> makes no namespace read, cached or uncached, and any
  review it hands to the engine carries the request with its namespace field cleared
  and no namespace object.
\<close>

theorem Handle_Namespace_kind_never_fetches:
  assumes "Kind (RequestKind req) = ''Namespace''" and "Group (RequestKind req) = []"
  shows "namespaceReads (snd (Handle h g req)) = [] \<and>
         (\<forall>rv \<in> set (reviews (snd (Handle h g req))).
            rv = \<lparr>Review_AdmissionRequest = req\<lparr>Namespace := []\<rparr>, Review_Namespace = None\<rparr>)"
  using projections_Handle [of h g req] reviewRequest_Namespace_kind [OF assms, of h]
  by auto

lemma ex_tracingLevel: "tracingLevel ex_handler req = (Inr (False, False), [ClientGetConfig])"
  by (simp add: tracingLevel_def getConfig_def ex_handler_def ex_client_def)

text \<open>An update of the Namespace prod, whose namespace field is prod.\<close>

theorem Handle_Namespace_kind_never_fetches_witness:
  "Kind (RequestKind ex_namespace_request) = ''Namespace'' \<and>
   Group (RequestKind ex_namespace_request) = [] \<and>
   Namespace ex_namespace_request = ''prod'' \<and>
   namespaceReads (snd (Handle ex_handler ex_globals ex_namespace_request)) = [] \<and>
   reviews (snd (Handle ex_handler ex_globals ex_namespace_request)) =
     [\<lparr>Review_AdmissionRequest = ex_namespace_request\<lparr>Namespace := []\<rparr>,
       Review_Namespace = None\<rparr>]"
proof -
  have k: "Kind (RequestKind ex_namespace_request) = ''Namespace''"
    and gr: "Group (RequestKind ex_namespace_request) = []"
    by (simp_all add: ex_namespace_request_def)
  have f: "\<not> isGkServiceAccount ex_globals (Username ex_namespace_request)"
    "Operation ex_namespace_request = Create \<or> Operation ex_namespace_request = Update"
    "\<not> isGatekeeperResource ex_namespace_request"
    by (simp_all add: isGkServiceAccount_def serviceaccount_def ex_globals_def
          ex_namespace_request_def isGatekeeperResource_def)
  have sk: "\<not> skipExcludedNamespace ex_handler (Namespace ex_namespace_request)"
    by (simp add: skipExcludedNamespace_def ex_handler_def ex_namespace_request_def)
  have c: "reviewRequest_coerce ex_namespace_request = ex_namespace_request\<lparr>Namespace := []\<rparr>"
    using k gr by (simp add: reviewRequest_coerce_def)
  have rv: "reviews (snd (Handle ex_handler ex_globals ex_namespace_request)) =
     [\<lparr>Review_AdmissionRequest = ex_namespace_request\<lparr>Namespace := []\<rparr>,
       Review_Namespace = None\<rparr>]"
    by (simp add: Handle_past_filters [OF f] reviews_append projections_deferredReport
          projections_Handle_evaluate sk reviewRequest_snd ex_tracingLevel c
          reviewRequest_review_empty_namespace projections_dispatch)
  show ?thesis
    using k gr rv Handle_Namespace_kind_never_fetches [OF k gr, of ex_handler ex_globals]
    by (simp add: ex_namespace_request_def)
qed

lemma tracingLevel_with_client:
  assumes "client h = Some c"
  shows "\<exists>td. fst (tracingLevel h req) = Inr td"
  using assms by (simp add: tracingLevel_def getConfig_def split: option.splits)

text \<open>
  Claim C6, as stated, fails for a request of the core Namespace kind: its namespace
  field is non-empty, yet \<^verbatim>\<open>reviewRequest\<close> makes no cached read; the only calls
  are the configuration read and the review.
\<close>

theorem reviewRequest_Namespace_kind_skips_cached_read:
  "Namespace ex_namespace_request \<noteq> [] \<and> client ex_handler \<noteq> None \<and>
   snd (reviewRequest ex_handler ex_namespace_request) =
     [ClientGetConfig,
      OpaReview \<lparr>Review_AdmissionRequest = ex_namespace_request\<lparr>Namespace := []\<rparr>,
                 Review_Namespace = None\<rparr> False]"
proof -
  have c: "reviewRequest_coerce ex_namespace_request = ex_namespace_request\<lparr>Namespace := []\<rparr>"
    by (simp add: reviewRequest_coerce_def ex_namespace_request_def)
  have "snd (reviewRequest ex_handler ex_namespace_request) =
     [ClientGetConfig,
      OpaReview \<lparr>Review_AdmissionRequest = ex_namespace_request\<lparr>Namespace := []\<rparr>,
                 Review_Namespace = None\<rparr> False]"
    by (simp add: reviewRequest_snd ex_tracingLevel c reviewRequest_review_empty_namespace
          reviewRequest_dispatch_def)
  then show ?thesis
    by (simp add: ex_namespace_request_def ex_handler_def)
qed

text \<open>
  Claim C6, amended. For a handler with a client and a request with a non-empty
  namespace whose kind is not the core Namespace kind: the cached read comes first;
  the uncached read is made exactly when the cached read fails with not-found; any
  other error of the cached read, and any error of the uncached read, is returned by
  \<^verbatim>\<open>reviewRequest\<close> with no review handed to the engine; and on success of either
  read the namespace object is attached to the review.
\<close>

theorem reviewRequest_namespace_resolution:
  assumes "client h = Some c"
    and "Namespace req \<noteq> []"
    and "\<not> (Kind (RequestKind req) = ''Namespace'' \<and> Group (RequestKind req) = [])"
  shows "case Get_Namespace c (Namespace req) of
           Inr ns \<Rightarrow>
             namespaceReads (snd (reviewRequest h req)) = [ClientGetNamespace (Namespace req)] \<and>
             reviews (snd (reviewRequest h req)) =
               [\<lparr>Review_AdmissionRequest = req, Review_Namespace = Some ns\<rparr>]
         | Inl err \<Rightarrow>
             if \<not> IsNotFound err
             then namespaceReads (snd (reviewRequest h req)) = [ClientGetNamespace (Namespace req)] \<and>
                  reviews (snd (reviewRequest h req)) = [] \<and>
                  fst (reviewRequest h req) = Inr (Inl err)
             else
               (case reader h (Namespace req) of
                  Inr ns \<Rightarrow>
                    namespaceReads (snd (reviewRequest h req)) =
                      [ClientGetNamespace (Namespace req), ReaderGetNamespace (Namespace req)] \<and>
                    reviews (snd (reviewRequest h req)) =
                      [\<lparr>Review_AdmissionRequest = req, Review_Namespace = Some ns\<rparr>]
                | Inl err2 \<Rightarrow>
                    namespaceReads (snd (reviewRequest h req)) =
                      [ClientGetNamespace (Namespace req), ReaderGetNamespace (Namespace req)] \<and>
                    reviews (snd (reviewRequest h req)) = [] \<and>
                    fst (reviewRequest h req) = Inr (Inl err2))"
proof -
  obtain td where td: "fst (tracingLevel h req) = Inr td"
    using tracingLevel_with_client [OF assms(1)] by blast
  have c: "reviewRequest_coerce req = req"
    using assms(3) by (auto simp: reviewRequest_coerce_def)
  show ?thesis
    using assms(1,2)
    by (simp add: reviewRequest_snd reviewRequest_fst td c namespaceReads_append reviews_append
          projections_tracingLevel projections_dispatch reviewRequest_review_def
          split: sum.splits)
qed

text \<open>The cached read reports not-found and the uncached read succeeds.\<close>

theorem reviewRequest_namespace_resolution_witness:
  "client ex_handler = Some ex_client \<and>
   Namespace (ex_request\<lparr>Namespace := ''prod''\<rparr>) \<noteq> [] \<and>
   namespaceReads (snd (reviewRequest ex_handler (ex_request\<lparr>Namespace := ''prod''\<rparr>))) =
     [ClientGetNamespace ''prod'', ReaderGetNamespace ''prod''] \<and>
   reviews (snd (reviewRequest ex_handler (ex_request\<lparr>Namespace := ''prod''\<rparr>))) =
     [\<lparr>Review_AdmissionRequest = ex_request\<lparr>Namespace := ''prod''\<rparr>,
       Review_Namespace = Some (corev1_Namespace ''prod'' [])\<rparr>]"
proof -
  have cl: "client ex_handler = Some ex_client"
    by (simp add: ex_handler_def)
  have n: "Namespace (ex_request\<lparr>Namespace := ''prod''\<rparr>) \<noteq> []"
    by simp
  have k: "\<not> (Kind (RequestKind (ex_request\<lparr>Namespace := ''prod''\<rparr>)) = ''Namespace'' \<and>
              Group (RequestKind (ex_request\<lparr>Namespace := ''prod''\<rparr>)) = [])"
    by (simp add: ex_request_def)
  show ?thesis
    using cl n reviewRequest_namespace_resolution [OF cl n k]
    by (simp add: ex_client_def ex_handler_def)
qed

section \<open>Configuration failures\<close>

lemma tracingLevel_fetch_failure:
  assumes "injectedConfig h = None" and "client h = Some c"
    and "Get_Config c = (\<lparr>Traces = []\<rparr>, Some err)"
  shows "tracingLevel h req = (Inr (False, False), [ClientGetConfig])"
  using assms by (simp add: tracingLevel_def getConfig_def)

lemma tracingLevel_missing_client:
  assumes "injectedConfig h = None" and "client h = None"
  shows "tracingLevel h req = (Inl NilPointerDereference, [])"
  using assms by (simp add: tracingLevel_def getConfig_def)

text \<open>
  Claim C4 at its failing input: a handler without injected configuration and without
  client. \<^verbatim>\<open>getConfig\<close> returns a nil configuration and an error,
  \<^verbatim>\<open>tracingLevel\<close> drops the error and dereferences the nil configuration, and
  \<^verbatim>\<open>Handle\<close> panics before any review; the deferred call records the tag
  \<^verbatim>\<open>unknown\<close>. (A failed fetch with a client present is tolerated, see
  \<open>tracingLevel_fetch_failure\<close>.)
\<close>

theorem Handle_missing_client_panics:
  "fst (getConfig (ex_handler\<lparr>client := None\<rparr>)) =
     (None, Some (Error ''no client available to retrieve validation config'' False)) \<and>
   fst (tracingLevel (ex_handler\<lparr>client := None\<rparr>) ex_request) = Inl NilPointerDereference \<and>
   Handle (ex_handler\<lparr>client := None\<rparr>) ex_globals ex_request =
     (Inl NilPointerDereference,
      [LogInfo ''!!!!!!!!!! MUTATION           '', ReportMutationRequest ''unknown'' 7])"
proof -
  let ?h = "ex_handler\<lparr>client := None\<rparr>"
  have i: "injectedConfig ?h = None" and c: "client ?h = None"
    by (simp_all add: ex_handler_def)
  have sk: "\<not> skipExcludedNamespace ?h (Namespace ex_request)"
    by (simp add: skipExcludedNamespace_def ex_handler_def ex_request_def)
  have rr: "reviewRequest ?h ex_request = (Inl NilPointerDereference, [])"
    by (simp add: reviewRequest_def tracingLevel_missing_client [OF i c])
  have ev: "Handle_evaluate ?h ex_globals ex_request =
      (Inl NilPointerDereference, mutationUnknownResponse, [])"
    using sk by (simp add: Handle_evaluate_def rr)
  have d: "deferredReport ?h ex_globals mutationUnknownResponse =
      [ReportMutationRequest ''unknown'' 7]"
    by (simp add: deferredReport_def mutationUnknownResponse_def ex_handler_def ex_globals_def)
  have "Handle ?h ex_globals ex_request =
     (Inl NilPointerDereference,
      [LogInfo ''!!!!!!!!!! MUTATION           '', ReportMutationRequest ''unknown'' 7])"
    by (simp only: Handle_past_filters [OF ex_filters(1-3)] ev d fst_conv snd_conv append_Nil)
  then show ?thesis
    by (simp add: tracingLevel_missing_client [OF i c] getConfig_def i c)
qed

section \<open>Primary handler and skeleton on the error path\<close>

text \<open>The evaluation step of the skeleton never returns an error, so the error branch
  of its \<^verbatim>\<open>Handle\<close> (lines 148 to 159, allowed true with status 500) is never taken.\<close>

lemma mutateRequest_never_fails: "mutateRequest hs req \<noteq> Inl err"
  by (simp add: mutateRequest_def)







end
